theory Spec2Isabelle
  imports Complex_Main
begin

section \<open>Data model of \<open>PaginatedGraphStorage.ts\<close>\<close>

text \<open>
  A JavaScript \<open>Date\<close> is its number of milliseconds since the epoch; a \<open>Date\<close> object is
  always truthy, so \<open>d || now\<close> is \<open>d\<close> whenever \<open>d\<close> is defined. A \<open>number\<close> field is an
  idealised real (no claim below depends on floating point). An optional field
  (\<open>metadata?\<close>, \<open>tags?\<close>, \<open>searchText?\<close>, \<open>strength?\<close>) is an \<open>option\<close>, with \<open>None\<close> for
  \<open>undefined\<close>.

  Record fields are global names in Isabelle, so the relation's metadata fields carry the
  prefix \<open>r_\<close>, the fields of a stored entity document the prefix \<open>e_\<close>, those of a stored
  relation document the prefix \<open>rd_\<close> and those of a stored summary document the prefix
  \<open>i_\<close>. The interfaces \<open>Entity\<close>, \<open>Relation\<close>, \<open>KnowledgeGraph\<close> and \<open>GraphSummary\<close> keep
  the field names of the source.
\<close>

type_synonym date = int
type_synonym number = real

record entity_metadata =
  createdAt :: date
  updatedAt :: date
  relationCount :: "number option"
  source :: "string option"

record Entity =
  entityId :: string
  name :: string
  entityType :: string
  observations :: "string list"
  metadata :: "entity_metadata option"
  tags :: "string list option"
  searchText :: "string option"

record relation_metadata =
  r_createdAt :: date
  r_source :: "string option"
  r_confidence :: "number option"

record Relation =
  relationId :: string
  fromEntityId :: string
  toEntityId :: string
  relationType :: string
  strength :: "number option"
  rel_metadata :: "relation_metadata option"

record KnowledgeGraph =
  entities :: "Entity list"
  relations :: "Relation list"

record search_index =
  frequent_terms :: "string list"
  entity_names :: "string list"

record GraphSummary =
  totalEntities :: nat
  totalRelations :: nat
  entityTypes :: "(string \<times> nat) list"
  recentEntities :: "string list"
  searchIndex :: search_index
  summary_updatedAt :: date

text \<open>
  The documents that \<open>saveEntity\<close>, \<open>saveRelation\<close> and \<open>updateSummaryIndex\<close> write. Each
  carries the \<open>userId\<close> of the call; the entity document always has a \<open>metadata\<close> object
  with both dates, a \<open>tags\<close> array and a \<open>searchText\<close>; the relation document always has
  a \<open>strength\<close> and a \<open>metadata\<close> object with \<open>createdAt\<close>.
\<close>

record entity_doc =
  e_userId :: string
  e_entityId :: string
  e_name :: string
  e_entityType :: string
  e_observations :: "string list"
  e_metadata :: entity_metadata
  e_tags :: "string list"
  e_searchText :: string

record relation_doc =
  rd_userId :: string
  rd_relationId :: string
  rd_fromEntityId :: string
  rd_toEntityId :: string
  rd_relationType :: string
  rd_strength :: number
  rd_metadata :: relation_metadata

record summary_counts =
  c_totalEntities :: nat
  c_totalRelations :: nat
  c_entityTypes :: "(string \<times> nat) list"

record index_doc =
  i_userId :: string
  i_summary :: summary_counts
  i_recentEntities :: "string list"
  i_searchIndex :: search_index
  i_updatedAt :: date

text \<open>
  The state of the storage: the three collections of the constructor, each a list of
  documents in insertion order, and the callbacks that \<open>updateSummaryIndex\<close> has handed
  to \<open>setImmediate\<close> and that have not run yet (one user identifier per callback).
\<close>

record store =
  entitiesCollection :: "entity_doc list"
  relationsCollection :: "relation_doc list"
  indexCollection :: "index_doc list"
  immediateQueue :: "string list"

definition emptyStore :: store where
  "emptyStore = \<lparr>entitiesCollection = [], relationsCollection = [], indexCollection = [],
                  immediateQueue = []\<rparr>"

section \<open>The document-store operations the class calls\<close>

text \<open>
  The collection methods of the driver, on a collection held as a list. A filter object
  is the predicate it denotes. \<open>replaceOne\<close> with \<open>upsert: true\<close> replaces the first
  matching document in place and inserts the replacement at the end when none matches;
  \<open>deleteOne\<close> removes the first match, \<open>deleteMany\<close> every match; \<open>find\<close> returns the
  matches in collection order and \<open>findOne\<close> the first of them.
\<close>

fun replaceOne :: "('d \<Rightarrow> bool) \<Rightarrow> 'd \<Rightarrow> 'd list \<Rightarrow> 'd list" where
  "replaceOne p d [] = [d]"
| "replaceOne p d (x # xs) = (if p x then d # xs else x # replaceOne p d xs)"

fun deleteOne :: "('d \<Rightarrow> bool) \<Rightarrow> 'd list \<Rightarrow> 'd list" where
  "deleteOne p [] = []"
| "deleteOne p (x # xs) = (if p x then xs else x # deleteOne p xs)"

definition deleteMany :: "('d \<Rightarrow> bool) \<Rightarrow> 'd list \<Rightarrow> 'd list" where
  "deleteMany p xs = filter (\<lambda>x. \<not> p x) xs"

definition findOne :: "('d \<Rightarrow> bool) \<Rightarrow> 'd list \<Rightarrow> 'd option" where
  "findOne p xs = List.find p xs"

definition findMany :: "('d \<Rightarrow> bool) \<Rightarrow> 'd list \<Rightarrow> 'd list" where
  "findMany p xs = filter p xs"

definition countDocuments :: "('d \<Rightarrow> bool) \<Rightarrow> 'd list \<Rightarrow> nat" where
  "countDocuments p xs = length (filter p xs)"

section \<open>Helper methods\<close>

text \<open>
  \<open>Array.prototype.join\<close> on an array of strings. A string is the list of the bytes of
  its UTF-8 encoding, so that equality, concatenation and \<open>join\<close> are those of the
  source's strings.
\<close>

fun join :: "string \<Rightarrow> string list \<Rightarrow> string" where
  "join sep [] = []"
| "join sep [x] = x"
| "join sep (x # y # ys) = x @ sep @ join sep (y # ys)"

definition orEmpty :: "'a list option \<Rightarrow> 'a list" where
  "orEmpty xs = (case xs of None \<Rightarrow> [] | Some ys \<Rightarrow> ys)"

text \<open>
  \<open>String.prototype.toLowerCase\<close> belongs to the platform, not to this class, and is
  Unicode-aware. It is the parameter \<open>lc\<close> of \<open>generateSearchText\<close> and of every operation
  that calls it; nothing proved below depends on what \<open>lc\<close> does to a string.
\<close>

definition generateSearchText :: "(string \<Rightarrow> string) \<Rightarrow> Entity \<Rightarrow> string" where
  "generateSearchText lc entity =
     lc (join '' '' ([name entity, entityType entity] @ observations entity
                     @ orEmpty (tags entity)))"

definition generateRelationId :: "Relation \<Rightarrow> string" where
  "generateRelationId relation =
     fromEntityId relation @ ''-'' @ relationType relation @ ''-'' @ toEntityId relation"

definition documentToEntity :: "entity_doc \<Rightarrow> Entity" where
  "documentToEntity doc =
     \<lparr>entityId = e_entityId doc, name = e_name doc, entityType = e_entityType doc,
      observations = e_observations doc, metadata = Some (e_metadata doc),
      tags = Some (e_tags doc), searchText = Some (e_searchText doc)\<rparr>"

definition documentToRelation :: "relation_doc \<Rightarrow> Relation" where
  "documentToRelation doc =
     \<lparr>relationId = rd_relationId doc, fromEntityId = rd_fromEntityId doc,
      toEntityId = rd_toEntityId doc, relationType = rd_relationType doc,
      strength = Some (rd_strength doc), rel_metadata = Some (rd_metadata doc)\<rparr>"

section \<open>Summary index\<close>

text \<open>
  \<open>generateSummary\<close>: two counts and one aggregation over the user's entity documents.
  The \<open>$group\<close> stage yields one count per entity type, the \<open>$sort\<close> stage orders by
  \<open>metadata.updatedAt\<close> descending (a stable sort on the negated date), \<open>$limit\<close> keeps
  ten documents and \<open>$project\<close> their \<open>entityId\<close>.
\<close>

definition recentDocs :: "string \<Rightarrow> entity_doc list \<Rightarrow> entity_doc list" where
  "recentDocs userId docs =
     take 10 (sort_key (\<lambda>d. - updatedAt (e_metadata d))
                (findMany (\<lambda>d. e_userId d = userId) docs))"

definition groupEntityTypes :: "entity_doc list \<Rightarrow> (string \<times> nat) list" where
  "groupEntityTypes docs =
     map (\<lambda>t. (t, length (filter (\<lambda>d. e_entityType d = t) docs)))
       (remdups (map e_entityType docs))"

text \<open>
  The \<open>reduce\<close> over the groups fills a plain object with \<open>acc[type._id] = type.count\<close>.
  The object is the list of its properties, whose order carries no meaning. An
  assignment of a number to the property \<open>__proto__\<close> of a plain object has no effect, so
  a type of that name gets no entry.
\<close>

definition entityTypeCounts :: "(string \<times> nat) list \<Rightarrow> (string \<times> nat) list" where
  "entityTypeCounts groups = filter (\<lambda>(t, n). t \<noteq> ''__proto__'') groups"

definition generateSummary :: "store \<Rightarrow> string \<Rightarrow> date \<Rightarrow> GraphSummary" where
  "generateSummary s userId now =
     \<lparr>totalEntities = countDocuments (\<lambda>d. e_userId d = userId) (entitiesCollection s),
      totalRelations = countDocuments (\<lambda>d. rd_userId d = userId) (relationsCollection s),
      entityTypes =
        entityTypeCounts
          (groupEntityTypes (findMany (\<lambda>d. e_userId d = userId) (entitiesCollection s))),
      recentEntities = map e_entityId (recentDocs userId (entitiesCollection s)),
      searchIndex =
        \<lparr>frequent_terms = [],
         entity_names = map e_entityId (recentDocs userId (entitiesCollection s))\<rparr>,
      summary_updatedAt = now\<rparr>"

text \<open>
  \<open>updateSummaryIndex\<close> only schedules a callback. \<open>runImmediate\<close> is the callback running
  later, at time \<open>now\<close>, on the state of that moment: it computes the summary and upserts
  the user's summary document.
\<close>

definition updateSummaryIndex :: "string \<Rightarrow> store \<Rightarrow> store" where
  "updateSummaryIndex userId s = s\<lparr>immediateQueue := immediateQueue s @ [userId]\<rparr>"

definition summaryDocument :: "string \<Rightarrow> GraphSummary \<Rightarrow> date \<Rightarrow> index_doc" where
  "summaryDocument userId summary now =
     \<lparr>i_userId = userId,
      i_summary = \<lparr>c_totalEntities = totalEntities summary,
                   c_totalRelations = totalRelations summary,
                   c_entityTypes = entityTypes summary\<rparr>,
      i_recentEntities = recentEntities summary,
      i_searchIndex = searchIndex summary,
      i_updatedAt = now\<rparr>"

definition runImmediate :: "date \<Rightarrow> store \<Rightarrow> store" where
  "runImmediate now s =
     (case immediateQueue s of
        [] \<Rightarrow> s
      | userId # rest \<Rightarrow>
          s\<lparr>indexCollection :=
               replaceOne (\<lambda>d. i_userId d = userId)
                 (summaryDocument userId (generateSummary s userId now) now)
                 (indexCollection s),
            immediateQueue := rest\<rparr>)"

definition getUserSummary :: "store \<Rightarrow> string \<Rightarrow> date \<Rightarrow> GraphSummary" where
  "getUserSummary s userId now =
     (case findOne (\<lambda>d. i_userId d = userId) (indexCollection s) of
        Some summary \<Rightarrow>
          \<lparr>totalEntities = c_totalEntities (i_summary summary),
           totalRelations = c_totalRelations (i_summary summary),
           entityTypes = c_entityTypes (i_summary summary),
           recentEntities = i_recentEntities summary,
           searchIndex = i_searchIndex summary,
           summary_updatedAt = i_updatedAt summary\<rparr>
      | None \<Rightarrow> generateSummary s userId now)"

section \<open>Entity operations\<close>

definition entityDocument ::
  "(string \<Rightarrow> string) \<Rightarrow> string \<Rightarrow> date \<Rightarrow> Entity \<Rightarrow> entity_doc" where
  "entityDocument lc userId now entity =
     \<lparr>e_userId = userId, e_entityId = entityId entity, e_name = name entity,
      e_entityType = entityType entity, e_observations = observations entity,
      e_metadata =
        (case metadata entity of
           None \<Rightarrow> \<lparr>createdAt = now, updatedAt = now, relationCount = None, source = None\<rparr>
         | Some m \<Rightarrow> m\<lparr>updatedAt := now, createdAt := createdAt m\<rparr>),
      e_tags = orEmpty (tags entity),
      e_searchText = generateSearchText lc entity\<rparr>"

definition saveEntity ::
  "(string \<Rightarrow> string) \<Rightarrow> string \<Rightarrow> Entity \<Rightarrow> date \<Rightarrow> store \<Rightarrow> store" where
  "saveEntity lc userId entity now s =
     updateSummaryIndex userId
       (s\<lparr>entitiesCollection :=
            replaceOne (\<lambda>d. e_userId d = userId \<and> e_entityId d = entityId entity)
              (entityDocument lc userId now entity) (entitiesCollection s)\<rparr>)"

definition getEntity :: "store \<Rightarrow> string \<Rightarrow> string \<Rightarrow> Entity option" where
  "getEntity s userId eid =
     (case findOne (\<lambda>d. e_userId d = userId \<and> e_entityId d = eid) (entitiesCollection s) of
        Some document \<Rightarrow> Some (documentToEntity document)
      | None \<Rightarrow> None)"

definition touches :: "string \<Rightarrow> relation_doc \<Rightarrow> bool" where
  "touches eid d \<longleftrightarrow> rd_fromEntityId d = eid \<or> rd_toEntityId d = eid"

definition deleteEntity :: "string \<Rightarrow> string \<Rightarrow> store \<Rightarrow> store" where
  "deleteEntity userId eid s =
     updateSummaryIndex userId
       (s\<lparr>entitiesCollection :=
            deleteOne (\<lambda>d. e_userId d = userId \<and> e_entityId d = eid) (entitiesCollection s),
          relationsCollection :=
            deleteMany (\<lambda>d. rd_userId d = userId \<and> touches eid d) (relationsCollection s)\<rparr>)"

text \<open>
  \<open>saveEntitiesBatch\<close>: nothing at all on an empty array; otherwise the \<open>replaceOne\<close>
  operations of \<open>bulkWrite\<close> run in the order of the array, all with the same \<open>now\<close>, and
  one summary refresh is scheduled.
\<close>

definition bulkWrite ::
  "(string \<Rightarrow> string) \<Rightarrow> string \<Rightarrow> date \<Rightarrow> Entity list \<Rightarrow> entity_doc list
   \<Rightarrow> entity_doc list" where
  "bulkWrite lc userId now ents docs =
     fold (\<lambda>entity. replaceOne (\<lambda>d. e_userId d = userId \<and> e_entityId d = entityId entity)
                       (entityDocument lc userId now entity)) ents docs"

definition saveEntitiesBatch ::
  "(string \<Rightarrow> string) \<Rightarrow> string \<Rightarrow> Entity list \<Rightarrow> date \<Rightarrow> store \<Rightarrow> store" where
  "saveEntitiesBatch lc userId ents now s =
     (if ents = [] then s
      else updateSummaryIndex userId
             (s\<lparr>entitiesCollection := bulkWrite lc userId now ents (entitiesCollection s)\<rparr>))"

definition getEntitiesBatch :: "store \<Rightarrow> string \<Rightarrow> string list \<Rightarrow> Entity list" where
  "getEntitiesBatch s userId entityIds =
     map documentToEntity
       (findMany (\<lambda>d. e_userId d = userId \<and> e_entityId d \<in> set entityIds)
          (entitiesCollection s))"

section \<open>Relation operations\<close>

definition relationDocument :: "string \<Rightarrow> date \<Rightarrow> Relation \<Rightarrow> relation_doc" where
  "relationDocument userId now relation =
     \<lparr>rd_userId = userId, rd_relationId = relationId relation,
      rd_fromEntityId = fromEntityId relation, rd_toEntityId = toEntityId relation,
      rd_relationType = relationType relation,
      rd_strength = (case strength relation of
                       None \<Rightarrow> 1
                     | Some x \<Rightarrow> if x = 0 then 1 else x),
      rd_metadata =
        (case rel_metadata relation of
           None \<Rightarrow> \<lparr>r_createdAt = now, r_source = None, r_confidence = None\<rparr>
         | Some m \<Rightarrow> m\<lparr>r_createdAt := r_createdAt m\<rparr>)\<rparr>"

text \<open>The filter of \<open>saveRelation\<close> names the two endpoints and nothing else.\<close>

definition saveRelation :: "string \<Rightarrow> Relation \<Rightarrow> date \<Rightarrow> store \<Rightarrow> store" where
  "saveRelation userId relation now s =
     updateSummaryIndex userId
       (s\<lparr>relationsCollection :=
            replaceOne (\<lambda>d. rd_fromEntityId d = fromEntityId relation
                            \<and> rd_toEntityId d = toEntityId relation)
              (relationDocument userId now relation) (relationsCollection s)\<rparr>)"

definition getRelations :: "store \<Rightarrow> string \<Rightarrow> string \<Rightarrow> Relation list" where
  "getRelations s userId eid =
     map documentToRelation
       (findMany (\<lambda>d. rd_userId d = userId \<and> touches eid d) (relationsCollection s))"

definition deleteRelation :: "string \<Rightarrow> string \<Rightarrow> string \<Rightarrow> store \<Rightarrow> store" where
  "deleteRelation userId fromId toId s =
     updateSummaryIndex userId
       (s\<lparr>relationsCollection :=
            deleteOne (\<lambda>d. rd_userId d = userId \<and> rd_fromEntityId d = fromId
                           \<and> rd_toEntityId d = toId) (relationsCollection s)\<rparr>)"

section \<open>Per-user lifecycle\<close>

definition loadForUser :: "store \<Rightarrow> string \<Rightarrow> KnowledgeGraph" where
  "loadForUser s userId =
     \<lparr>entities = map documentToEntity
                   (findMany (\<lambda>d. e_userId d = userId) (entitiesCollection s)),
      relations = map documentToRelation
                    (findMany (\<lambda>d. rd_userId d = userId) (relationsCollection s))\<rparr>"

definition clearForUser :: "string \<Rightarrow> store \<Rightarrow> store" where
  "clearForUser userId s =
     s\<lparr>entitiesCollection := deleteMany (\<lambda>d. e_userId d = userId) (entitiesCollection s),
       relationsCollection := deleteMany (\<lambda>d. rd_userId d = userId) (relationsCollection s),
       indexCollection := deleteMany (\<lambda>d. i_userId d = userId) (indexCollection s)\<rparr>"

section \<open>Graph traversal\<close>

text \<open>
  The \<open>while\<close> loop of \<open>getConnectedEntities\<close>, one equation per state of the queue:
  \<open>visited\<close>, \<open>entities\<close>, \<open>relations\<close> and \<open>queue\<close> are the loop's variables. An item
  already visited or deeper than \<open>depth\<close> is dropped (\<open>continue\<close>). Otherwise the item is
  marked, its entity appended when \<open>getEntity\<close> finds one, and, below the maximum depth,
  its relations appended and the other end of each relation queued one level deeper
  unless it is marked already.
\<close>

definition otherEnd :: "string \<Rightarrow> Relation \<Rightarrow> string" where
  "otherEnd cur relation =
     (if fromEntityId relation = cur then toEntityId relation else fromEntityId relation)"

definition enqueued ::
  "store \<Rightarrow> string \<Rightarrow> string \<Rightarrow> string set \<Rightarrow> int \<Rightarrow> (string \<times> int) list" where
  "enqueued s userId cur visited currentDepth =
     map (\<lambda>n. (n, currentDepth + 1))
       (filter (\<lambda>n. n \<notin> visited) (map (otherEnd cur) (getRelations s userId cur)))"

definition found :: "store \<Rightarrow> string \<Rightarrow> string \<Rightarrow> Entity list" where
  "found s userId cur =
     (case getEntity s userId cur of Some entity \<Rightarrow> [entity] | None \<Rightarrow> [])"

function traverse ::
  "store \<Rightarrow> string \<Rightarrow> int \<Rightarrow> string set \<Rightarrow> Entity list \<Rightarrow> Relation list
   \<Rightarrow> (string \<times> int) list \<Rightarrow> KnowledgeGraph" where
  "traverse s userId depth visited ents rels [] = \<lparr>entities = ents, relations = rels\<rparr>"
| "traverse s userId depth visited ents rels ((cur, currentDepth) # queue) =
     (if cur \<in> visited \<or> currentDepth > depth
      then traverse s userId depth visited ents rels queue
      else if currentDepth < depth
      then traverse s userId depth (insert cur visited) (ents @ found s userId cur)
             (rels @ getRelations s userId cur)
             (queue @ enqueued s userId cur (insert cur visited) currentDepth)
      else traverse s userId depth (insert cur visited) (ents @ found s userId cur) rels
             queue)"
  by pat_completeness auto

definition getConnectedEntities :: "store \<Rightarrow> string \<Rightarrow> string \<Rightarrow> int \<Rightarrow> KnowledgeGraph"
  where
  "getConnectedEntities s userId eid depth = traverse s userId depth {} [] [] [(eid, 0)]"

text \<open>
  The log of the same loop: the items on which the loop body runs, in order, each with
  the depth at which it was taken from the queue. A node is \<^emph>\<open>reached at depth\<close> \<open>k\<close> when
  \<open>(node, k)\<close> is in the log, and \<^emph>\<open>expanded\<close> when moreover \<open>k < depth\<close>, which is when
  the loop fetches its relations.
\<close>

function visits ::
  "store \<Rightarrow> string \<Rightarrow> int \<Rightarrow> string set \<Rightarrow> (string \<times> int) list \<Rightarrow> (string \<times> int) list"
  where
  "visits s userId depth visited [] = []"
| "visits s userId depth visited ((cur, currentDepth) # queue) =
     (if cur \<in> visited \<or> currentDepth > depth
      then visits s userId depth visited queue
      else if currentDepth < depth
      then (cur, currentDepth)
           # visits s userId depth (insert cur visited)
               (queue @ enqueued s userId cur (insert cur visited) currentDepth)
      else (cur, currentDepth) # visits s userId depth (insert cur visited) queue)"
  by pat_completeness auto

definition expanded :: "store \<Rightarrow> string \<Rightarrow> string \<Rightarrow> int \<Rightarrow> string list" where
  "expanded s userId eid depth =
     map fst (filter (\<lambda>(n, k). k < depth) (visits s userId depth {} [(eid, 0)]))"

section \<open>The unique indexes\<close>

text \<open>
  \<open>createIndexes\<close> declares three unique indexes: \<open>userId_entityId_unique\<close> on the
  entities, \<open>fromEntityId_toEntityId_unique\<close> on the relations (without the user) and
  \<open>userId_unique\<close> on the summaries.
\<close>

definition entityIndexUnique :: "store \<Rightarrow> bool" where
  "entityIndexUnique s \<longleftrightarrow>
     distinct (map (\<lambda>d. (e_userId d, e_entityId d)) (entitiesCollection s))"

definition relationIndexUnique :: "store \<Rightarrow> bool" where
  "relationIndexUnique s \<longleftrightarrow>
     distinct (map (\<lambda>d. (rd_fromEntityId d, rd_toEntityId d)) (relationsCollection s))"

definition summaryIndexUnique :: "store \<Rightarrow> bool" where
  "summaryIndexUnique s \<longleftrightarrow> distinct (map i_userId (indexCollection s))"

definition uniqueIndexes :: "store \<Rightarrow> bool" where
  "uniqueIndexes s \<longleftrightarrow> entityIndexUnique s \<and> relationIndexUnique s \<and> summaryIndexUnique s"

section \<open>What one user can observe\<close>

text \<open>
  The documents of the three collections that carry a given user identifier. Every read
  operation filters on the user, so what it returns for a user is determined by these
  documents.
\<close>

definition userView ::
  "store \<Rightarrow> string \<Rightarrow> entity_doc list \<times> relation_doc list \<times> index_doc list" where
  "userView s userId =
     (findMany (\<lambda>d. e_userId d = userId) (entitiesCollection s),
      findMany (\<lambda>d. rd_userId d = userId) (relationsCollection s),
      findMany (\<lambda>d. i_userId d = userId) (indexCollection s))"

section \<open>A small store\<close>

text \<open>
  The scenario of the specification: user \<open>u\<close> saves the person \<open>A\<close> at time 1, the place
  \<open>B\<close> at time 2 and the relation \<open>A\<close> visited \<open>B\<close> at time 3. \<open>exLikes\<close> joins the same two
  endpoints with another type, \<open>exLoop\<close> joins \<open>A\<close> to itself, and \<open>exTriangle\<close> adds a third
  entity \<open>C\<close> with relations from \<open>A\<close> and from \<open>B\<close>.
\<close>

text \<open>
  The strings of the examples are ASCII, and on an ASCII string \<open>toLowerCase\<close> maps each
  of the letters \<open>A\<close> to \<open>Z\<close> to its lower-case letter and keeps every other character.
  \<open>asciiLowerCase\<close> is the lower-casing function handed to the operations in the examples.
\<close>

definition asciiLowerCaseChar :: "char \<Rightarrow> char" where
  "asciiLowerCaseChar c =
     (case map_of (zip ''ABCDEFGHIJKLMNOPQRSTUVWXYZ'' ''abcdefghijklmnopqrstuvwxyz'') c of
        Some l \<Rightarrow> l
      | None \<Rightarrow> c)"

definition asciiLowerCase :: "string \<Rightarrow> string" where
  "asciiLowerCase str = map asciiLowerCaseChar str"

definition exAda :: Entity where
  "exAda = \<lparr>entityId = ''A'', name = ''Ada'', entityType = ''Person'',
            observations = [''Likes Tea''], metadata = None, tags = None,
            searchText = Some ''supplied''\<rparr>"

definition exBath :: Entity where
  "exBath = \<lparr>entityId = ''B'', name = ''Bath'', entityType = ''Place'', observations = [],
             metadata = Some \<lparr>createdAt = 0, updatedAt = 0, relationCount = None,
                              source = None\<rparr>,
             tags = Some [''Spa''], searchText = None\<rparr>"

definition exCam :: Entity where
  "exCam = \<lparr>entityId = ''C'', name = ''Cam'', entityType = ''Place'', observations = [],
            metadata = None, tags = None, searchText = None\<rparr>"

definition exRelation :: "string \<Rightarrow> string \<Rightarrow> string \<Rightarrow> Relation" where
  "exRelation a ty b =
     \<lparr>relationId = a @ ''-'' @ ty @ ''-'' @ b, fromEntityId = a, toEntityId = b,
      relationType = ty, strength = None, rel_metadata = None\<rparr>"

definition exVisited :: Relation where
  "exVisited = exRelation ''A'' ''visited'' ''B''"

definition exLikes :: Relation where
  "exLikes = exRelation ''A'' ''likes'' ''B''"

definition exLoop :: Relation where
  "exLoop = exRelation ''A'' ''knows'' ''A''"

definition exStore :: store where
  "exStore = saveRelation ''u'' exVisited 3
               (saveEntity asciiLowerCase ''u'' exBath 2
                  (saveEntity asciiLowerCase ''u'' exAda 1 emptyStore))"

definition exTriangle :: store where
  "exTriangle = saveRelation ''u'' (exRelation ''B'' ''near'' ''C'') 6
                  (saveRelation ''u'' (exRelation ''A'' ''visited'' ''C'') 5
                     (saveEntity asciiLowerCase ''u'' exCam 4 exStore))"

definition exLoopStore :: store where
  "exLoopStore = saveRelation ''u'' exLoop 2
                   (saveEntity asciiLowerCase ''u'' exAda 1 emptyStore)"

text \<open>The creation and update dates of the entity that \<open>getEntity\<close> returns, if any.\<close>

definition storedCreatedAt :: "store \<Rightarrow> string \<Rightarrow> string \<Rightarrow> date option" where
  "storedCreatedAt s userId eid =
     map_option createdAt (Option.bind (getEntity s userId eid) metadata)"

definition storedUpdatedAt :: "store \<Rightarrow> string \<Rightarrow> string \<Rightarrow> date option" where
  "storedUpdatedAt s userId eid =
     map_option updatedAt (Option.bind (getEntity s userId eid) metadata)"


text \<open>The user, endpoints and type of a stored edge.\<close>

definition edgeOf :: "relation_doc \<Rightarrow> string \<times> string \<times> string \<times> string" where
  "edgeOf d = (rd_userId d, rd_fromEntityId d, rd_relationType d, rd_toEntityId d)"

section \<open>Termination of the traversal\<close>

text \<open>
  Every node the loop can mark is the start node or an endpoint of a stored relation.
  Each run of the loop body marks one more of these finitely many nodes, and each
  \<open>continue\<close> shortens the queue.
\<close>

definition endpoints :: "store \<Rightarrow> string set" where
  "endpoints s = rd_fromEntityId ` set (relationsCollection s)
                 \<union> rd_toEntityId ` set (relationsCollection s)"

lemma finite_endpoints: "finite (endpoints s)"
  by (simp add: endpoints_def)

lemma enqueued_endpoints: "fst ` set (enqueued s userId cur visited cd) \<subseteq> endpoints s"
  by (auto simp: enqueued_def endpoints_def getRelations_def findMany_def otherEnd_def
      documentToRelation_def)

lemma card_skip:
  "card ((fst ` set queue \<union> endpoints s) - visited)
   \<le> card ((fst ` set (item # queue) \<union> endpoints s) - visited)"
  by (rule card_mono) (auto simp: finite_endpoints)

lemma card_visit:
  assumes "cur \<notin> visited" and "fst ` set new \<subseteq> endpoints s"
  shows "card ((fst ` set (queue @ new) \<union> endpoints s) - insert cur visited)
         < card ((fst ` set ((cur, cd) # queue) \<union> endpoints s) - visited)"
proof (rule psubset_card_mono)
  show "finite ((fst ` set ((cur, cd) # queue) \<union> endpoints s) - visited)"
    by (simp add: finite_endpoints)
  show "(fst ` set (queue @ new) \<union> endpoints s) - insert cur visited
        \<subset> (fst ` set ((cur, cd) # queue) \<union> endpoints s) - visited"
    using assms by auto
qed

termination traverse
proof (relation "(\<lambda>(s, u, d, vis, es, rs, q). card ((fst ` set q \<union> endpoints s) - vis))
                 <*mlex*> measure (\<lambda>(s, u, d, vis, es, rs, q). length q)", goal_cases)
  case 1
  show ?case by (simp add: wf_mlex)
next
  case (2 s userId depth visited ents rels cur currentDepth queue)
  show ?case by (rule mlex_leq) (use card_skip in auto)
next
  case (3 s userId depth visited ents rels cur currentDepth queue)
  then show ?case
    by (intro mlex_less, simp only: prod.case, intro card_visit enqueued_endpoints) simp
next
  case (4 s userId depth visited ents rels cur currentDepth queue)
  then show ?case
    using card_visit [of cur visited "[]" s queue currentDepth] by (intro mlex_less) simp
qed

termination visits
proof (relation "(\<lambda>(s, u, d, vis, q). card ((fst ` set q \<union> endpoints s) - vis))
                 <*mlex*> measure (\<lambda>(s, u, d, vis, q). length q)", goal_cases)
  case 1
  show ?case by (simp add: wf_mlex)
next
  case (2 s userId depth visited cur currentDepth queue)
  show ?case by (rule mlex_leq) (use card_skip in auto)
next
  case (3 s userId depth visited cur currentDepth queue)
  then show ?case
    by (intro mlex_less, simp only: prod.case, intro card_visit enqueued_endpoints) simp
next
  case (4 s userId depth visited cur currentDepth queue)
  then show ?case
    using card_visit [of cur visited "[]" s queue currentDepth] by (intro mlex_less) simp
qed

section \<open>Facts about the document-store operations\<close>

lemmas example_defs =
  exAda_def exBath_def exCam_def exRelation_def exVisited_def exLikes_def exLoop_def
  exStore_def exTriangle_def exLoopStore_def emptyStore_def

lemmas operation_defs =
  saveEntity_def saveRelation_def deleteEntity_def deleteRelation_def updateSummaryIndex_def
  entityDocument_def relationDocument_def getEntity_def getRelations_def findOne_def
  findMany_def deleteMany_def documentToEntity_def documentToRelation_def
  orEmpty_def touches_def


lemma findOne_replaceOne_same: "p d \<Longrightarrow> findOne p (replaceOne p d xs) = Some d"
  by (induction xs) (auto simp: findOne_def)


lemma replaceOne_twice: "p d1 \<Longrightarrow> replaceOne p d2 (replaceOne p d1 xs) = replaceOne p d2 xs"
  by (induction xs) auto

lemma key_fresh: "distinct (map k (x # xs)) \<Longrightarrow> y \<in> set xs \<Longrightarrow> k y \<noteq> k x"
  by (metis distinct.simps(2) image_eqI list.simps(9) list.set_map)

lemma filter_key_replaceOne:
  "distinct (map k xs) \<Longrightarrow> k d = key \<Longrightarrow>
   filter (\<lambda>x. k x = key) (replaceOne (\<lambda>x. k x = key) d xs) = [d]"
proof (induction xs)
  case Nil
  then show ?case by simp
next
  case (Cons x xs)
  have "k x = key \<Longrightarrow> filter (\<lambda>y. k y = key) xs = []"
    using key_fresh [OF Cons.prems(1)] by (auto simp: filter_empty_conv)
  with Cons show ?case by auto
qed

lemma distinct_key_replaceOne:
  "distinct (map k xs) \<Longrightarrow> k d = key \<Longrightarrow>
   distinct (map k (replaceOne (\<lambda>x. k x = key) d xs))"
proof (induction xs)
  case Nil
  then show ?case by simp
next
  case (Cons x xs)
  have "k ` set (replaceOne (\<lambda>x. k x = key) d xs) \<subseteq> insert key (k ` set xs)" for xs
    using Cons.prems(2) by (induction xs) auto
  with Cons show ?case by auto
qed

lemma set_deleteOne: "set (deleteOne p xs) \<subseteq> set xs"
  by (induction xs) auto

lemma distinct_key_deleteOne: "distinct (map k xs) \<Longrightarrow> distinct (map k (deleteOne p xs))"
proof (induction xs)
  case Nil
  then show ?case by simp
next
  case (Cons x xs)
  then show ?case using set_deleteOne [of p xs] by auto
qed

lemma findOne_key_deleteOne:
  "distinct (map k xs) \<Longrightarrow> findOne (\<lambda>x. k x = key) (deleteOne (\<lambda>x. k x = key) xs) = None"
proof (induction xs)
  case Nil
  then show ?case by (simp add: findOne_def)
next
  case (Cons x xs)
  have "k x = key \<Longrightarrow> List.find (\<lambda>y. k y = key) xs = None"
    using key_fresh [OF Cons.prems] by (auto simp: find_None_iff)
  with Cons show ?case by (auto simp: findOne_def)
qed

lemma find_distinct_key:
  "distinct (map k xs) \<Longrightarrow> d \<in> set xs \<Longrightarrow> List.find (\<lambda>x. k x = k d) xs = Some d"
  by (induction xs) auto

lemma map_edgeOf_replaceOne:
  "edgeOf d1 = edgeOf d2 \<Longrightarrow> map edgeOf (replaceOne p d2 xs) = map edgeOf (replaceOne p d1 xs)"
  by (induction xs) auto

lemma entity_key:
  "(\<lambda>d. e_userId d = u \<and> e_entityId d = i) = (\<lambda>d. (e_userId d, e_entityId d) = (u, i))"
  by auto

lemma relation_key:
  "(\<lambda>d. rd_fromEntityId d = a \<and> rd_toEntityId d = b)
   = (\<lambda>d. (rd_fromEntityId d, rd_toEntityId d) = (a, b))"
  by auto

lemma entityDocument_key:
  "e_userId (entityDocument lc u now e) = u" "e_entityId (entityDocument lc u now e) = entityId e"
  by (simp_all add: entityDocument_def)

lemma getEntity_saveEntity:
  "getEntity (saveEntity lc u e now s) u (entityId e)
   = Some (documentToEntity (entityDocument lc u now e))"
  by (simp add: getEntity_def saveEntity_def updateSummaryIndex_def findOne_replaceOne_same
      entityDocument_key)





lemma getEntitiesBatch_set:
  assumes "entityIndexUnique s"
  shows "set (getEntitiesBatch s u ids) = {e. \<exists>i \<in> set ids. getEntity s u i = Some e}"
proof -
  have first: "findOne (\<lambda>x. e_userId x = e_userId d \<and> e_entityId x = e_entityId d)
                 (entitiesCollection s) = Some d"
    if "d \<in> set (entitiesCollection s)" for d
    using find_distinct_key [of "\<lambda>d. (e_userId d, e_entityId d)" "entitiesCollection s" d]
      assms that
    by (simp add: entityIndexUnique_def findOne_def)
  show ?thesis
  proof (intro set_eqI iffI)
    fix e assume "e \<in> set (getEntitiesBatch s u ids)"
    then obtain d where d: "d \<in> set (entitiesCollection s)" "e_userId d = u"
      "e_entityId d \<in> set ids" "e = documentToEntity d"
      by (auto simp: getEntitiesBatch_def findMany_def)
    then have "getEntity s u (e_entityId d) = Some e"
      using first [of d] by (simp add: getEntity_def)
    with d show "e \<in> {e. \<exists>i \<in> set ids. getEntity s u i = Some e}" by blast
  next
    fix e assume "e \<in> {e. \<exists>i \<in> set ids. getEntity s u i = Some e}"
    then obtain i where i: "i \<in> set ids" "getEntity s u i = Some e" by blast
    then obtain d where
      "List.find (\<lambda>d. e_userId d = u \<and> e_entityId d = i) (entitiesCollection s) = Some d"
      "e = documentToEntity d"
      by (auto simp: getEntity_def findOne_def split: option.splits)
    then have "d \<in> set (entitiesCollection s)" "e_userId d = u" "e_entityId d = i"
      "e = documentToEntity d"
      by (auto simp: find_Some_iff)
    with i show "e \<in> set (getEntitiesBatch s u ids)"
      by (auto simp: getEntitiesBatch_def findMany_def)
  qed
qed

section \<open>The unique indexes are maintained\<close>

text \<open>
  The empty store satisfies the three unique indexes, and every operation and every
  summary refresh keeps them: each upsert filters on exactly the key of the index of its
  collection.
\<close>

lemma distinct_key_deleteMany: "distinct (map k xs) \<Longrightarrow> distinct (map k (deleteMany p xs))"
  unfolding deleteMany_def by (rule distinct_map_filter)

lemma entity_replaceOne_unique:
  "distinct (map (\<lambda>d. (e_userId d, e_entityId d)) docs) \<Longrightarrow>
   distinct (map (\<lambda>d. (e_userId d, e_entityId d))
     (replaceOne (\<lambda>d. e_userId d = u \<and> e_entityId d = entityId e)
        (entityDocument lc u now e) docs))"
  unfolding entity_key
  by (intro distinct_key_replaceOne) (simp_all add: entityDocument_key)

lemma relation_replaceOne_unique:
  "distinct (map (\<lambda>d. (rd_fromEntityId d, rd_toEntityId d)) docs) \<Longrightarrow>
   distinct (map (\<lambda>d. (rd_fromEntityId d, rd_toEntityId d))
     (replaceOne (\<lambda>d. rd_fromEntityId d = fromEntityId r \<and> rd_toEntityId d = toEntityId r)
        (relationDocument u now r) docs))"
  unfolding relation_key
  by (intro distinct_key_replaceOne) (simp_all add: relationDocument_def)

lemma distinct_key_bulkWrite:
  "distinct (map (\<lambda>d. (e_userId d, e_entityId d)) docs) \<Longrightarrow>
   distinct (map (\<lambda>d. (e_userId d, e_entityId d)) (bulkWrite lc u now ents docs))"
  unfolding bulkWrite_def
  by (induction ents arbitrary: docs) (simp_all add: entity_replaceOne_unique)

lemma uniqueIndexes_preserved:
  "uniqueIndexes emptyStore"
  "uniqueIndexes s \<Longrightarrow> uniqueIndexes (saveEntity lc u e now s)"
  "uniqueIndexes s \<Longrightarrow> uniqueIndexes (saveEntitiesBatch lc u ents now s)"
  "uniqueIndexes s \<Longrightarrow> uniqueIndexes (deleteEntity u i s)"
  "uniqueIndexes s \<Longrightarrow> uniqueIndexes (saveRelation u r now s)"
  "uniqueIndexes s \<Longrightarrow> uniqueIndexes (deleteRelation u a b s)"
  "uniqueIndexes s \<Longrightarrow> uniqueIndexes (clearForUser u s)"
  "uniqueIndexes s \<Longrightarrow> uniqueIndexes (runImmediate now s)"
proof -
  show "uniqueIndexes emptyStore"
    by (simp add: uniqueIndexes_def entityIndexUnique_def relationIndexUnique_def
        summaryIndexUnique_def emptyStore_def)
  show "uniqueIndexes (saveEntity lc u e now s)" if "uniqueIndexes s"
    using that
    by (simp add: uniqueIndexes_def entityIndexUnique_def relationIndexUnique_def
        summaryIndexUnique_def saveEntity_def updateSummaryIndex_def
        entity_replaceOne_unique)
  show "uniqueIndexes (saveEntitiesBatch lc u ents now s)" if "uniqueIndexes s"
    using that
    by (simp add: uniqueIndexes_def entityIndexUnique_def relationIndexUnique_def
        summaryIndexUnique_def saveEntitiesBatch_def updateSummaryIndex_def
        distinct_key_bulkWrite)
  show "uniqueIndexes (deleteEntity u i s)" if "uniqueIndexes s"
    using that
    by (simp add: uniqueIndexes_def entityIndexUnique_def relationIndexUnique_def
        summaryIndexUnique_def deleteEntity_def updateSummaryIndex_def
        distinct_key_deleteOne distinct_key_deleteMany)
  show "uniqueIndexes (saveRelation u r now s)" if "uniqueIndexes s"
    using that
    by (simp add: uniqueIndexes_def entityIndexUnique_def relationIndexUnique_def
        summaryIndexUnique_def saveRelation_def updateSummaryIndex_def
        relation_replaceOne_unique)
  show "uniqueIndexes (deleteRelation u a b s)" if "uniqueIndexes s"
    using that
    by (simp add: uniqueIndexes_def entityIndexUnique_def relationIndexUnique_def
        summaryIndexUnique_def deleteRelation_def updateSummaryIndex_def
        distinct_key_deleteOne)
  show "uniqueIndexes (clearForUser u s)" if "uniqueIndexes s"
    using that
    by (simp add: uniqueIndexes_def entityIndexUnique_def relationIndexUnique_def
        summaryIndexUnique_def clearForUser_def distinct_key_deleteMany)
  show "uniqueIndexes (runImmediate now s)" if "uniqueIndexes s"
    using that
    by (simp add: uniqueIndexes_def entityIndexUnique_def relationIndexUnique_def
        summaryIndexUnique_def runImmediate_def distinct_key_replaceOne summaryDocument_def
        split: list.split)
qed

section \<open>Relations are keyed by their ordered pair of endpoints\<close>

text \<open>
  Claim C1. Let the relations collection satisfy its unique index, and let \<open>r1\<close> and \<open>r2\<close>
  have the same \<open>fromEntityId\<close> and the same \<open>toEntityId\<close>. After user \<open>u\<close> saves \<open>r1\<close> and
  then \<open>r2\<close>, the collection holds exactly one document for that ordered pair, whatever
  its user and type, and it is the document of the second save; the collection is the
  one a single save of \<open>r2\<close> would have left, so the second save overwrites the first.
  When \<open>r1\<close> and \<open>r2\<close> also have the same type, the second save leaves the user, the
  endpoints and the type of every stored edge as the first save left them, and when the
  same relation is saved twice (at the same time, or carrying its own creation date) the
  collection does not change at all. The unique index still holds afterwards.
\<close>

theorem saveRelation_same_pair_one_edge:
  assumes "relationIndexUnique s"
    and "fromEntityId r1 = fromEntityId r2"
    and "toEntityId r1 = toEntityId r2"
  shows "findMany (\<lambda>d. rd_fromEntityId d = fromEntityId r2 \<and> rd_toEntityId d = toEntityId r2)
           (relationsCollection (saveRelation u r2 t2 (saveRelation u r1 t1 s)))
         = [relationDocument u t2 r2]
       \<and> relationsCollection (saveRelation u r2 t2 (saveRelation u r1 t1 s))
         = relationsCollection (saveRelation u r2 t2 s)
       \<and> (relationType r1 = relationType r2 \<longrightarrow>
            map edgeOf (relationsCollection (saveRelation u r2 t2 (saveRelation u r1 t1 s)))
            = map edgeOf (relationsCollection (saveRelation u r1 t1 s)))
       \<and> (r1 = r2 \<and> (t1 = t2 \<or> rel_metadata r1 \<noteq> None) \<longrightarrow>
            relationsCollection (saveRelation u r2 t2 (saveRelation u r1 t1 s))
            = relationsCollection (saveRelation u r1 t1 s))
       \<and> relationIndexUnique (saveRelation u r2 t2 (saveRelation u r1 t1 s))"
proof -
  let ?p = "\<lambda>d. rd_fromEntityId d = fromEntityId r2 \<and> rd_toEntityId d = toEntityId r2"
  let ?s2 = "saveRelation u r2 t2 (saveRelation u r1 t1 s)"
  have first: "relationsCollection (saveRelation u r1 t1 s)
               = replaceOne ?p (relationDocument u t1 r1) (relationsCollection s)"
    using assms(2,3) by (simp add: saveRelation_def updateSummaryIndex_def)
  have twice: "relationsCollection ?s2
               = replaceOne ?p (relationDocument u t2 r2) (relationsCollection s)"
    using assms(2,3)
    by (simp add: saveRelation_def updateSummaryIndex_def replaceOne_twice
        relationDocument_def)
  have one: "findMany ?p (relationsCollection ?s2) = [relationDocument u t2 r2]"
    unfolding twice findMany_def relation_key using assms(1)
    by (intro filter_key_replaceOne) (simp_all add: relationIndexUnique_def relationDocument_def)
  have over: "relationsCollection ?s2 = relationsCollection (saveRelation u r2 t2 s)"
    unfolding twice by (simp add: saveRelation_def updateSummaryIndex_def)
  have edges: "map edgeOf (relationsCollection ?s2)
               = map edgeOf (relationsCollection (saveRelation u r1 t1 s))"
    if "relationType r1 = relationType r2"
    unfolding twice first using that assms(2,3)
    by (intro map_edgeOf_replaceOne) (simp add: edgeOf_def relationDocument_def)
  have same: "relationsCollection ?s2 = relationsCollection (saveRelation u r1 t1 s)"
    if "r1 = r2 \<and> (t1 = t2 \<or> rel_metadata r1 \<noteq> None)"
  proof -
    have "relationDocument u t2 r2 = relationDocument u t1 r1"
      using that by (auto simp: relationDocument_def split: option.splits)
    then show ?thesis unfolding twice first by simp
  qed
  have uniq: "relationIndexUnique ?s2"
    unfolding relationIndexUnique_def twice relation_key using assms(1)
    by (intro distinct_key_replaceOne) (simp_all add: relationIndexUnique_def relationDocument_def)
  from one over edges same uniq show ?thesis by blast
qed

theorem saveRelation_same_pair_one_edge_witness:
  "relationIndexUnique exStore
   \<and> fromEntityId exVisited = fromEntityId exLikes
   \<and> toEntityId exVisited = toEntityId exLikes
   \<and> findMany (\<lambda>d. rd_fromEntityId d = ''A'' \<and> rd_toEntityId d = ''B'')
       (relationsCollection (saveRelation ''u'' exLikes 5 (saveRelation ''u'' exVisited 4 exStore)))
     = [relationDocument ''u'' 5 exLikes]
   \<and> map rd_relationType
       (relationsCollection (saveRelation ''u'' exLikes 5 (saveRelation ''u'' exVisited 4 exStore)))
     = [''likes'']"
proof -
  have h1: "relationIndexUnique exStore"
    by (simp add: relationIndexUnique_def example_defs operation_defs)
  have h2: "fromEntityId exVisited = fromEntityId exLikes"
    and h3: "toEntityId exVisited = toEntityId exLikes"
    by (simp_all add: example_defs)
  show ?thesis
    using h1 h2 h3
      saveRelation_same_pair_one_edge [OF h1 h2 h3, where u = "''u''" and ?t1.0 = 4 and ?t2.0 = 5]
    by (simp add: example_defs operation_defs)
qed

section \<open>Creation and update dates on save\<close>

text \<open>
  Claim C3, as amended. After \<open>saveEntity(u, e)\<close> at time \<open>now\<close>, the entity fetched under
  \<open>(u, e.entityId)\<close> has the \<open>createdAt\<close> that \<open>e\<close> itself carries in its metadata when it
  carries one, and \<open>now\<close> when \<open>e\<close> has no metadata, whether or not an entity was stored
  before and whatever its creation date was; its \<open>updatedAt\<close> is \<open>now\<close>.
\<close>

theorem saveEntity_dates:
  "storedCreatedAt (saveEntity lc u e now s) u (entityId e)
     = Some (case metadata e of Some m \<Rightarrow> createdAt m | None \<Rightarrow> now)
   \<and> storedUpdatedAt (saveEntity lc u e now s) u (entityId e) = Some now"
  by (simp add: storedCreatedAt_def storedUpdatedAt_def getEntity_saveEntity
      documentToEntity_def entityDocument_def split: option.split)

text \<open>
  The claim as it was stated fails: \<open>B\<close> is stored with creation date 0, and a second
  save of \<open>B\<close> at time 9 by a caller who supplies the creation date 7 leaves 7.
\<close>

theorem saveEntity_createdAt_counterexample:
  "storedCreatedAt exStore ''u'' ''B'' = Some 0
   \<and> storedCreatedAt
       (saveEntity asciiLowerCase ''u''
          (exBath\<lparr>metadata := Some \<lparr>createdAt = 7, updatedAt = 7, relationCount = None,
                                     source = None\<rparr>\<rparr>) 9 exStore) ''u'' ''B''
     = Some 7"
  by (simp add: storedCreatedAt_def example_defs operation_defs)

section \<open>Save then fetch\<close>




section \<open>Absence is a value\<close>

text \<open>
  Claim C9. \<open>getEntity(u, id)\<close> is the not-found value when the entities collection has no
  document of user \<open>u\<close> with that id; \<open>getRelations(u, id)\<close> is the empty list when no
  relation of \<open>u\<close> has \<open>id\<close> as an endpoint; and \<open>getEntitiesBatch(u, ids)\<close> returns entities
  whose ids are among \<open>ids\<close>, and, under the unique index, exactly the entities that
  \<open>getEntity\<close> finds for the members of \<open>ids\<close>: an id that is not stored contributes
  nothing. All three are total functions returning a value.
\<close>

theorem get_absent_is_value:
  "((\<forall>d \<in> set (entitiesCollection s). \<not> (e_userId d = u \<and> e_entityId d = i)) \<longrightarrow>
      getEntity s u i = None)
   \<and> ((\<forall>d \<in> set (relationsCollection s). \<not> (rd_userId d = u \<and> touches i d)) \<longrightarrow>
      getRelations s u i = [])
   \<and> (\<forall>e \<in> set (getEntitiesBatch s u ids). entityId e \<in> set ids)
   \<and> (entityIndexUnique s \<longrightarrow>
        set (getEntitiesBatch s u ids) = {e. \<exists>j \<in> set ids. getEntity s u j = Some e})"
proof -
  have "getEntity s u i = None"
    if "\<forall>d \<in> set (entitiesCollection s). \<not> (e_userId d = u \<and> e_entityId d = i)"
    using that by (auto simp: getEntity_def findOne_def find_None_iff split: option.split)
  moreover have "getRelations s u i = []"
    if "\<forall>d \<in> set (relationsCollection s). \<not> (rd_userId d = u \<and> touches i d)"
    using that by (auto simp: getRelations_def findMany_def filter_empty_conv)
  moreover have "\<forall>e \<in> set (getEntitiesBatch s u ids). entityId e \<in> set ids"
    by (auto simp: getEntitiesBatch_def findMany_def documentToEntity_def)
  ultimately show ?thesis using getEntitiesBatch_set [of s u ids] by blast
qed

theorem get_absent_is_value_witness:
  "map e_entityId (entitiesCollection exStore) = [''A'', ''B'']
   \<and> getEntity exStore ''u'' ''Z'' = None
   \<and> map rd_fromEntityId (relationsCollection exStore) = [''A'']
   \<and> map rd_toEntityId (relationsCollection exStore) = [''B'']
   \<and> getRelations exStore ''u'' ''Z'' = []
   \<and> entityIndexUnique exStore
   \<and> map entityId (getEntitiesBatch exStore ''u'' [''B'', ''Z'', ''A'']) = [''A'', ''B'']"
proof -
  have h1: "\<forall>d \<in> set (entitiesCollection exStore). \<not> (e_userId d = ''u'' \<and> e_entityId d = ''Z'')"
    by (simp add: example_defs operation_defs)
  have h2: "\<forall>d \<in> set (relationsCollection exStore). \<not> (rd_userId d = ''u'' \<and> touches ''Z'' d)"
    by (simp add: example_defs operation_defs)
  have h3: "entityIndexUnique exStore"
    by (simp add: entityIndexUnique_def example_defs operation_defs)
  have b: "map entityId (getEntitiesBatch exStore ''u'' [''B'', ''Z'', ''A'']) = [''A'', ''B'']"
    by (simp add: getEntitiesBatch_def example_defs operation_defs)
  have c: "map e_entityId (entitiesCollection exStore) = [''A'', ''B'']"
    "map rd_fromEntityId (relationsCollection exStore) = [''A'']"
    "map rd_toEntityId (relationsCollection exStore) = [''B'']"
    by (simp_all add: example_defs operation_defs)
  show ?thesis
    using h1 h2 h3 b c get_absent_is_value [of exStore "''u''" "''Z''" "[''B'', ''Z'', ''A'']"]
    by simp
qed

section \<open>Cascading delete\<close>

text \<open>
  Claim C4. Under the unique index of the entities, after \<open>deleteEntity(u, E)\<close> no relation
  document of user \<open>u\<close> has \<open>E\<close> as \<open>fromEntityId\<close> or as \<open>toEntityId\<close>, \<open>getRelations(u, E)\<close>
  is the empty list and \<open>getEntity(u, E)\<close> is the not-found value.
\<close>

theorem deleteEntity_cascades:
  assumes "entityIndexUnique s"
  shows "getRelations (deleteEntity u E s) u E = []
       \<and> getEntity (deleteEntity u E s) u E = None
       \<and> (\<forall>d \<in> set (relationsCollection (deleteEntity u E s)).
            rd_userId d = u \<longrightarrow> rd_fromEntityId d \<noteq> E \<and> rd_toEntityId d \<noteq> E)"
proof -
  have "findOne (\<lambda>d. e_userId d = u \<and> e_entityId d = E)
          (deleteOne (\<lambda>d. e_userId d = u \<and> e_entityId d = E) (entitiesCollection s)) = None"
    unfolding entity_key using assms
    by (intro findOne_key_deleteOne) (simp add: entityIndexUnique_def)
  then show ?thesis
    by (auto simp: getRelations_def getEntity_def deleteEntity_def updateSummaryIndex_def
        deleteMany_def findMany_def filter_empty_conv touches_def)
qed

theorem deleteEntity_cascades_witness:
  "entityIndexUnique exStore
   \<and> map relationType (getRelations exStore ''u'' ''A'') = [''visited'']
   \<and> getRelations (deleteEntity ''u'' ''B'' exStore) ''u'' ''B'' = []
   \<and> getRelations (deleteEntity ''u'' ''B'' exStore) ''u'' ''A'' = []
   \<and> getEntity (deleteEntity ''u'' ''B'' exStore) ''u'' ''B'' = None"
proof -
  have h: "entityIndexUnique exStore"
    by (simp add: entityIndexUnique_def example_defs operation_defs)
  have a: "map relationType (getRelations exStore ''u'' ''A'') = [''visited'']"
    "getRelations (deleteEntity ''u'' ''B'' exStore) ''u'' ''A'' = []"
    by (simp_all add: example_defs operation_defs)
  show ?thesis
    using h a deleteEntity_cascades [OF h, of "''u''" "''B''"] by simp
qed

section \<open>Traversal to depth zero\<close>

text \<open>
  Claim C6. \<open>getConnectedEntities(u, X, 0)\<close> returns the entity \<open>X\<close> alone and no relation
  when \<open>getEntity(u, X)\<close> finds \<open>X\<close>, and two empty lists when it does not.
\<close>

theorem getConnectedEntities_depth_zero:
  "getConnectedEntities s u X 0
   = (case getEntity s u X of
        Some e \<Rightarrow> \<lparr>entities = [e], relations = []\<rparr>
      | None \<Rightarrow> \<lparr>entities = [], relations = []\<rparr>)"
  by (simp add: getConnectedEntities_def found_def split: option.split)

text \<open>
  The depth matters for the absent start node: a relation may name an endpoint that is
  not stored as an entity, and from depth 1 on the traversal follows it.
\<close>

lemma absent_start_with_relation:
  "getEntity (saveRelation ''u'' (exRelation ''Z'' ''near'' ''A'') 4 exStore) ''u'' ''Z'' = None
   \<and> map entityId (entities (getConnectedEntities
         (saveRelation ''u'' (exRelation ''Z'' ''near'' ''A'') 4 exStore) ''u'' ''Z'' 1))
     = [''A'']
   \<and> map relationId (relations (getConnectedEntities
         (saveRelation ''u'' (exRelation ''Z'' ''near'' ''A'') 4 exStore) ''u'' ''Z'' 1))
     = [''Z-near-A'']"
  by (simp add: getConnectedEntities_def found_def enqueued_def otherEnd_def
      example_defs operation_defs)

section \<open>The user summary\<close>

lemma recentDocs_sorted:
  "sorted_wrt (\<lambda>a b. updatedAt (e_metadata b) \<le> updatedAt (e_metadata a)) (recentDocs u docs)"
proof -
  have "sorted (map (\<lambda>d. - updatedAt (e_metadata d))
          (sort_key (\<lambda>d. - updatedAt (e_metadata d)) (findMany (\<lambda>d. e_userId d = u) docs)))"
    by (rule sorted_sort_key)
  then have "sorted_wrt (\<lambda>a b. updatedAt (e_metadata b) \<le> updatedAt (e_metadata a))
          (sort_key (\<lambda>d. - updatedAt (e_metadata d)) (findMany (\<lambda>d. e_userId d = u) docs))"
    by (simp add: sorted_map)
  then show ?thesis unfolding recentDocs_def by (rule sorted_wrt_take)
qed

lemma recentDocs_subset: "set (recentDocs u docs) \<subseteq> {d \<in> set docs. e_userId d = u}"
proof -
  have "set (recentDocs u docs)
        \<subseteq> set (sort_key (\<lambda>d. - updatedAt (e_metadata d)) (findMany (\<lambda>d. e_userId d = u) docs))"
    unfolding recentDocs_def by (rule set_take_subset)
  then show ?thesis by (auto simp: findMany_def)
qed

lemma recentDocs_length: "length (recentDocs u docs) \<le> 10"
  by (simp add: recentDocs_def)

lemma recentDocs_top:
  assumes "d \<in> set docs" "e_userId d = u" "d \<notin> set (recentDocs u docs)" "d' \<in> set (recentDocs u docs)"
  shows "updatedAt (e_metadata d) \<le> updatedAt (e_metadata d')"
proof -
  let ?xs = "sort_key (\<lambda>d. - updatedAt (e_metadata d)) (findMany (\<lambda>d. e_userId d = u) docs)"
  have "sorted_wrt (\<lambda>a b. updatedAt (e_metadata b) \<le> updatedAt (e_metadata a)) (take 10 ?xs @ drop 10 ?xs)"
    using sorted_sort_key [of "\<lambda>d. - updatedAt (e_metadata d)" "findMany (\<lambda>d. e_userId d = u) docs"]
    by (simp add: sorted_map)
  then have *: "\<forall>a \<in> set (take 10 ?xs). \<forall>b \<in> set (drop 10 ?xs). updatedAt (e_metadata b) \<le> updatedAt (e_metadata a)"
    unfolding sorted_wrt_append by blast
  have "d \<in> set ?xs" using assms(1,2) by (simp add: findMany_def)
  then have "d \<in> set (take 10 ?xs) \<union> set (drop 10 ?xs)"
    by (metis append_take_drop_id set_append)
  with assms(3) have "d \<in> set (drop 10 ?xs)" by (simp add: recentDocs_def)
  with * assms(4) show ?thesis by (simp add: recentDocs_def)
qed

text \<open>
  Claim C8. When the index collection holds a summary document for \<open>u\<close>, \<open>getUserSummary\<close>
  returns the fields of that document. When it holds none, \<open>getUserSummary\<close> returns the
  summary that \<open>generateSummary\<close> computes at once: its \<open>totalEntities\<close> and
  \<open>totalRelations\<close> are the numbers of entities and relations that \<open>loadForUser\<close> returns
  for \<open>u\<close>, and its \<open>recentEntities\<close> are the ids of at most ten entity documents of \<open>u\<close>,
  in descending order of \<open>metadata.updatedAt\<close>, none of them older than a document of \<open>u\<close>
  left out. Once the scheduled refresh of \<open>u\<close> has run, the summary returned for \<open>u\<close>
  carries the counts of that moment.
\<close>

theorem getUserSummary_cached_or_fresh:
  "(\<forall>c. findOne (\<lambda>d. i_userId d = u) (indexCollection s) = Some c \<longrightarrow>
      getUserSummary s u now
      = \<lparr>totalEntities = c_totalEntities (i_summary c),
         totalRelations = c_totalRelations (i_summary c),
         entityTypes = c_entityTypes (i_summary c),
         recentEntities = i_recentEntities c,
         searchIndex = i_searchIndex c,
         summary_updatedAt = i_updatedAt c\<rparr>)
   \<and> (findOne (\<lambda>d. i_userId d = u) (indexCollection s) = None \<longrightarrow>
        getUserSummary s u now = generateSummary s u now
        \<and> totalEntities (getUserSummary s u now) = length (entities (loadForUser s u))
        \<and> totalRelations (getUserSummary s u now) = length (relations (loadForUser s u))
        \<and> length (recentEntities (getUserSummary s u now)) \<le> 10
        \<and> recentEntities (getUserSummary s u now)
          = map e_entityId (recentDocs u (entitiesCollection s)))
   \<and> sorted_wrt (\<lambda>a b. updatedAt (e_metadata b) \<le> updatedAt (e_metadata a))
        (recentDocs u (entitiesCollection s))
   \<and> set (recentDocs u (entitiesCollection s))
      \<subseteq> {d \<in> set (entitiesCollection s). e_userId d = u}
   \<and> (\<forall>d \<in> set (entitiesCollection s). \<forall>d' \<in> set (recentDocs u (entitiesCollection s)).
         e_userId d = u \<and> d \<notin> set (recentDocs u (entitiesCollection s)) \<longrightarrow>
         updatedAt (e_metadata d) \<le> updatedAt (e_metadata d'))
   \<and> (\<forall>rest. immediateQueue s = u # rest \<longrightarrow>
         totalEntities (getUserSummary (runImmediate now s) u now')
         = length (entities (loadForUser (runImmediate now s) u))
         \<and> totalRelations (getUserSummary (runImmediate now s) u now')
           = length (relations (loadForUser (runImmediate now s) u)))"
proof -
  have fresh: "totalEntities (generateSummary s u now) = length (entities (loadForUser s u))"
    "totalRelations (generateSummary s u now) = length (relations (loadForUser s u))"
    "recentEntities (generateSummary s u now)
     = map e_entityId (recentDocs u (entitiesCollection s))"
    by (simp_all add: generateSummary_def loadForUser_def countDocuments_def findMany_def)
  have converged:
    "totalEntities (getUserSummary (runImmediate now s) u now')
     = length (entities (loadForUser (runImmediate now s) u))
     \<and> totalRelations (getUserSummary (runImmediate now s) u now')
       = length (relations (loadForUser (runImmediate now s) u))"
    if "immediateQueue s = u # rest" for rest
    using that
    by (simp add: runImmediate_def getUserSummary_def findOne_replaceOne_same
        summaryDocument_def generateSummary_def loadForUser_def countDocuments_def
        findMany_def)
  have cached_or_fresh:
    "(\<forall>c. findOne (\<lambda>d. i_userId d = u) (indexCollection s) = Some c \<longrightarrow>
      getUserSummary s u now
      = \<lparr>totalEntities = c_totalEntities (i_summary c),
         totalRelations = c_totalRelations (i_summary c),
         entityTypes = c_entityTypes (i_summary c),
         recentEntities = i_recentEntities c,
         searchIndex = i_searchIndex c,
         summary_updatedAt = i_updatedAt c\<rparr>)
     \<and> (findOne (\<lambda>d. i_userId d = u) (indexCollection s) = None \<longrightarrow>
        getUserSummary s u now = generateSummary s u now
        \<and> totalEntities (getUserSummary s u now) = length (entities (loadForUser s u))
        \<and> totalRelations (getUserSummary s u now) = length (relations (loadForUser s u))
        \<and> length (recentEntities (getUserSummary s u now)) \<le> 10
        \<and> recentEntities (getUserSummary s u now)
          = map e_entityId (recentDocs u (entitiesCollection s)))"
    using recentDocs_length [of u "entitiesCollection s"]
    by (simp add: getUserSummary_def fresh)
  show ?thesis
    using cached_or_fresh converged recentDocs_sorted [of u "entitiesCollection s"]
      recentDocs_subset [of u "entitiesCollection s"]
      recentDocs_top [of _ "entitiesCollection s" u]
    by blast
qed

theorem getUserSummary_cached_or_fresh_witness:
  "findOne (\<lambda>d. i_userId d = ''u'') (indexCollection exStore) = None
   \<and> totalEntities (getUserSummary exStore ''u'' 9) = 2
   \<and> totalRelations (getUserSummary exStore ''u'' 9) = 1
   \<and> recentEntities (getUserSummary exStore ''u'' 9) = [''B'', ''A'']
   \<and> immediateQueue exStore = [''u'', ''u'', ''u'']
   \<and> map i_userId
       (indexCollection (saveEntity asciiLowerCase ''u'' exCam 5 (runImmediate 4 exStore)))
     = [''u'']
   \<and> totalEntities
       (getUserSummary (saveEntity asciiLowerCase ''u'' exCam 5 (runImmediate 4 exStore))
          ''u'' 9) = 2
   \<and> length
       (entities
          (loadForUser (saveEntity asciiLowerCase ''u'' exCam 5 (runImmediate 4 exStore))
             ''u'')) = 3"
proof -
  let ?s = "saveEntity asciiLowerCase ''u'' exCam 5 (runImmediate 4 exStore)"
  have none: "findOne (\<lambda>d. i_userId d = ''u'') (indexCollection exStore) = None"
    and queue: "immediateQueue exStore = [''u'', ''u'', ''u'']"
    by (simp_all add: example_defs operation_defs)
  have docs: "map (\<lambda>d. (e_userId d, e_entityId d, updatedAt (e_metadata d)))
                (entitiesCollection exStore) = [(''u'', ''A'', 1), (''u'', ''B'', 2)]"
    and rels: "map rd_userId (relationsCollection exStore) = [''u'']"
    by (simp_all add: example_defs operation_defs)
  have load: "length (entities (loadForUser exStore ''u'')) = 2"
    "length (relations (loadForUser exStore ''u'')) = 1"
    by (simp_all add: loadForUser_def example_defs operation_defs)
  have recent: "map e_entityId (recentDocs ''u'' (entitiesCollection exStore)) = [''B'', ''A'']"
    by (simp add: recentDocs_def example_defs operation_defs)
  have cached: "\<exists>c. findOne (\<lambda>d. i_userId d = ''u'') (indexCollection ?s) = Some c
                    \<and> c_totalEntities (i_summary c) = 2"
    and users: "map i_userId (indexCollection ?s) = [''u'']"
    and three: "length (entities (loadForUser ?s ''u'')) = 3"
    by (simp_all add: runImmediate_def summaryDocument_def generateSummary_def loadForUser_def
        countDocuments_def example_defs operation_defs)
  show ?thesis
    using none queue load recent cached users three
      getUserSummary_cached_or_fresh [of "''u''" exStore 9 9]
      getUserSummary_cached_or_fresh [of "''u''" ?s 9 9]
    by auto
qed

section \<open>What the traversal returns\<close>

lemma traverse_visits:
  "traverse s u d vis es rs q =
     \<lparr>entities = es @ concat (map (\<lambda>(n, k). found s u n) (visits s u d vis q)),
      relations = rs @ concat (map (\<lambda>(n, k). getRelations s u n)
                                 (filter (\<lambda>(n, k). k < d) (visits s u d vis q)))\<rparr>"
  by (induction s u d vis es rs q rule: traverse.induct) auto

lemma visits_fresh: "(n, k) \<in> set (visits s u d vis q) \<Longrightarrow> n \<notin> vis \<and> k \<le> d"
  by (induction s u d vis q rule: visits.induct) (auto split: if_splits)

lemma visits_distinct: "distinct (map fst (visits s u d vis q))"
proof (induction s u d vis q rule: visits.induct)
  case (1 s userId depth visited)
  then show ?case by simp
next
  case (2 s userId depth visited cur currentDepth queue)
  then show ?case using visits_fresh [of cur _ s userId depth "insert cur visited"] by auto
qed





lemma relations_expanded:
  "relations (getConnectedEntities s u X d) = concat (map (getRelations s u) (expanded s u X d))"
  by (simp add: getConnectedEntities_def traverse_visits expanded_def map_map comp_def
      case_prod_unfold)




lemma getRelations_iff:
  "r \<in> set (getRelations s u n)
   \<longleftrightarrow> r \<in> set (relations (loadForUser s u)) \<and> (fromEntityId r = n \<or> toEntityId r = n)"
  by (auto simp: getRelations_def loadForUser_def findMany_def touches_def documentToRelation_def)



lemma distinct_expanded: "distinct (expanded s u X d)"
  unfolding expanded_def using visits_distinct [of s u d "{}" "[(X, 0)]"]
  by (rule distinct_map_filter)



section \<open>Relations are returned once per expanded endpoint\<close>

lemma count_list_concat:
  "count_list (concat xss) r = sum_list (map (\<lambda>xs. count_list xs r) xss)"
  by (induction xss) auto

lemma sum_indicator_distinct:
  "distinct ns \<Longrightarrow>
   sum_list (map (\<lambda>n. if a = n \<or> b = n then 1 else 0) ns) = card ({a, b} \<inter> set ns)"
proof (induction ns)
  case Nil
  then show ?case by simp
next
  case (Cons n ns)
  have "{a, b} \<inter> set (n # ns) = (if a = n \<or> b = n then insert n ({a, b} \<inter> set ns) else {a, b} \<inter> set ns)"
    by auto
  moreover have "n \<notin> {a, b} \<inter> set ns" using Cons.prems by simp
  moreover have "finite ({a, b} \<inter> set ns)" by simp
  ultimately show ?case using Cons by simp
qed

lemma documentToRelation_inj:
  assumes "relationIndexUnique s"
  shows "inj_on documentToRelation (set (relationsCollection s))"
proof (rule inj_onI)
  fix d d' assume d: "d \<in> set (relationsCollection s)" "d' \<in> set (relationsCollection s)"
    and eq: "documentToRelation d = documentToRelation d'"
  have "inj_on (\<lambda>d. (rd_fromEntityId d, rd_toEntityId d)) (set (relationsCollection s))"
    using assms by (simp add: relationIndexUnique_def distinct_map)
  moreover have "(rd_fromEntityId d, rd_toEntityId d) = (rd_fromEntityId d', rd_toEntityId d')"
    using eq by (simp add: documentToRelation_def)
  ultimately show "d = d'" using d by (rule inj_onD)
qed

lemma distinct_getRelations:
  assumes "relationIndexUnique s"
  shows "distinct (getRelations s u n)"
proof -
  have "distinct (relationsCollection s)"
    using assms by (simp add: relationIndexUnique_def distinct_map)
  then have "distinct (findMany (\<lambda>d. rd_userId d = u \<and> touches n d) (relationsCollection s))"
    by (simp add: findMany_def)
  moreover have "inj_on documentToRelation
                   (set (findMany (\<lambda>d. rd_userId d = u \<and> touches n d) (relationsCollection s)))"
    using documentToRelation_inj [OF assms] by (rule inj_on_subset) (auto simp: findMany_def)
  ultimately show ?thesis by (simp add: getRelations_def distinct_map)
qed

lemma count_list_distinct:
  "distinct xs \<Longrightarrow> count_list xs x = (if x \<in> set xs then 1 else 0)"
  by (induction xs) auto

lemma count_getRelations:
  assumes "relationIndexUnique s" and "r \<in> set (relations (loadForUser s u))"
  shows "count_list (getRelations s u n) r = (if fromEntityId r = n \<or> toEntityId r = n then 1 else 0)"
  using distinct_getRelations [OF assms(1), of u n] assms(2) getRelations_iff [of r s u n]
  by (simp add: count_list_distinct)

lemma count_relations:
  assumes "relationIndexUnique s" and "r \<in> set (relations (loadForUser s u))"
  shows "count_list (relations (getConnectedEntities s u X d)) r
         = card ({fromEntityId r, toEntityId r} \<inter> set (expanded s u X d))"
proof -
  have "count_list (relations (getConnectedEntities s u X d)) r
        = sum_list (map (\<lambda>n. count_list (getRelations s u n) r) (expanded s u X d))"
    by (simp add: relations_expanded count_list_concat comp_def)
  also have "\<dots> = sum_list (map (\<lambda>n. if fromEntityId r = n \<or> toEntityId r = n then 1 else 0) (expanded s u X d))"
    by (simp add: count_getRelations [OF assms])
  also have "\<dots> = card ({fromEntityId r, toEntityId r} \<inter> set (expanded s u X d))"
    using distinct_expanded by (rule sum_indicator_distinct)
  finally show ?thesis .
qed

text \<open>
  Claim C10, as amended. The relations returned by \<open>getConnectedEntities(u, X, d)\<close> are the
  concatenation, in order and without removing duplicates, of \<open>getRelations\<close> over the
  expanded nodes. Under the unique index of the relations, a relation of \<open>u\<close> occurs in
  the result as many times as it has distinct expanded endpoints: twice when its two
  endpoints differ and both are expanded, so that the result then has a duplicate, and
  once when it joins an expanded node to itself.
\<close>

theorem relations_once_per_expanded_endpoint:
  "relations (getConnectedEntities s u X d)
     = concat (map (getRelations s u) (expanded s u X d))
   \<and> (relationIndexUnique s \<longrightarrow>
        (\<forall>r \<in> set (relations (loadForUser s u)).
           count_list (relations (getConnectedEntities s u X d)) r
             = card ({fromEntityId r, toEntityId r} \<inter> set (expanded s u X d))
           \<and> (fromEntityId r \<noteq> toEntityId r \<and> fromEntityId r \<in> set (expanded s u X d)
                \<and> toEntityId r \<in> set (expanded s u X d) \<longrightarrow>
              count_list (relations (getConnectedEntities s u X d)) r = 2
              \<and> \<not> distinct (relations (getConnectedEntities s u X d)))
           \<and> (fromEntityId r = toEntityId r \<and> fromEntityId r \<in> set (expanded s u X d) \<longrightarrow>
              count_list (relations (getConnectedEntities s u X d)) r = 1)))"
proof -
  have two: "count_list (relations (getConnectedEntities s u X d)) r = 2
             \<and> \<not> distinct (relations (getConnectedEntities s u X d))"
    if c: "count_list (relations (getConnectedEntities s u X d)) r
           = card ({fromEntityId r, toEntityId r} \<inter> set (expanded s u X d))"
      and e: "fromEntityId r \<noteq> toEntityId r \<and> fromEntityId r \<in> set (expanded s u X d)
              \<and> toEntityId r \<in> set (expanded s u X d)" for r
  proof -
    have "{fromEntityId r, toEntityId r} \<inter> set (expanded s u X d)
          = {fromEntityId r, toEntityId r}"
      using e by auto
    then have n: "count_list (relations (getConnectedEntities s u X d)) r = 2"
      using c e by simp
    then have "\<not> distinct (relations (getConnectedEntities s u X d))"
      using count_list_distinct [of "relations (getConnectedEntities s u X d)" r]
      by (auto split: if_splits)
    with n show ?thesis by simp
  qed
  have one: "count_list (relations (getConnectedEntities s u X d)) r = 1"
    if c: "count_list (relations (getConnectedEntities s u X d)) r
           = card ({fromEntityId r, toEntityId r} \<inter> set (expanded s u X d))"
      and e: "fromEntityId r = toEntityId r \<and> fromEntityId r \<in> set (expanded s u X d)" for r
  proof -
    have "{fromEntityId r, toEntityId r} \<inter> set (expanded s u X d) = {fromEntityId r}"
      using e by auto
    then show ?thesis using c by simp
  qed
  from two one count_relations [of s _ u X d] relations_expanded [of s u X d]
  show ?thesis by blast
qed

theorem relations_once_per_expanded_endpoint_witness:
  "relationIndexUnique exTriangle
   \<and> expanded exTriangle ''u'' ''A'' 2 = [''A'', ''B'', ''C'']
   \<and> map relationId (relations (getConnectedEntities exTriangle ''u'' ''A'' 2))
     = [''A-visited-B'', ''A-visited-C'', ''A-visited-B'', ''B-near-C'', ''A-visited-C'',
        ''B-near-C'']
   \<and> count_list (relations (getConnectedEntities exTriangle ''u'' ''A'' 2))
       (documentToRelation (relationDocument ''u'' 6 (exRelation ''B'' ''near'' ''C''))) = 2"
proof -
  let ?r = "documentToRelation (relationDocument ''u'' 6 (exRelation ''B'' ''near'' ''C''))"
  have h: "relationIndexUnique exTriangle"
    by (simp add: relationIndexUnique_def example_defs operation_defs)
  have x: "expanded exTriangle ''u'' ''A'' 2 = [''A'', ''B'', ''C'']"
    by (simp add: expanded_def enqueued_def otherEnd_def example_defs operation_defs)
  have g: "map relationId (relations (getConnectedEntities exTriangle ''u'' ''A'' 2))
           = [''A-visited-B'', ''A-visited-C'', ''A-visited-B'', ''B-near-C'', ''A-visited-C'',
              ''B-near-C'']"
    by (simp add: getConnectedEntities_def found_def enqueued_def otherEnd_def
        example_defs operation_defs)
  have r: "?r \<in> set (relations (loadForUser exTriangle ''u''))"
    "fromEntityId ?r = ''B''" "toEntityId ?r = ''C''"
    by (simp_all add: loadForUser_def example_defs operation_defs)
  show ?thesis
    using h x g r relations_once_per_expanded_endpoint [of exTriangle "''u''" "''A''" 2]
    by auto
qed

text \<open>
  The claim as it was stated fails on a relation from a node to itself: in \<open>exLoopStore\<close>
  the relation joins \<open>A\<close> to \<open>A\<close>, \<open>A\<close> is expanded at depth 0, and the traversal to depth
  2 returns the relation once.
\<close>

theorem relations_twice_counterexample:
  "fromEntityId exLoop = ''A'' \<and> toEntityId exLoop = ''A''
   \<and> expanded exLoopStore ''u'' ''A'' 2 = [''A'']
   \<and> relations (getConnectedEntities exLoopStore ''u'' ''A'' 2)
     = [documentToRelation (relationDocument ''u'' 2 exLoop)]"
  by (simp add: getConnectedEntities_def expanded_def found_def enqueued_def otherEnd_def
      example_defs operation_defs)

section \<open>User isolation\<close>

text \<open>
  What \<open>getEntity\<close>, \<open>getRelations\<close>, \<open>loadForUser\<close> and \<open>getUserSummary\<close> return for a user
  is a function of that user's documents, and \<open>saveEntity\<close>, \<open>deleteEntity\<close>,
  \<open>deleteRelation\<close>, \<open>saveEntitiesBatch\<close>, \<open>clearForUser\<close> and the summary refresh of one
  user leave the documents of every other user as they are: each of them filters on the
  user identifier.
\<close>

lemma find_filter: "List.find (\<lambda>x. q x \<and> p x) xs = List.find p (filter q xs)"
  by (induction xs) auto

lemma find_filter_True: "List.find q xs = List.find (\<lambda>_. True) (filter q xs)"
  using find_filter [of q "\<lambda>_. True" xs] by simp

lemma observations_of_view:
  shows "getEntity s u i
         = map_option documentToEntity
             (List.find (\<lambda>d. e_entityId d = i) (fst (userView s u)))"
    and "getRelations s u i
         = map documentToRelation (filter (touches i) (fst (snd (userView s u))))"
    and "loadForUser s u
         = \<lparr>entities = map documentToEntity (fst (userView s u)),
            relations = map documentToRelation (fst (snd (userView s u)))\<rparr>"
    and "generateSummary s u now
         = \<lparr>totalEntities = length (fst (userView s u)),
            totalRelations = length (fst (snd (userView s u))),
            entityTypes = entityTypeCounts (groupEntityTypes (fst (userView s u))),
            recentEntities =
              map e_entityId
                (take 10 (sort_key (\<lambda>d. - updatedAt (e_metadata d)) (fst (userView s u)))),
            searchIndex =
              \<lparr>frequent_terms = [],
               entity_names =
                 map e_entityId
                   (take 10 (sort_key (\<lambda>d. - updatedAt (e_metadata d))
                               (fst (userView s u))))\<rparr>,
            summary_updatedAt = now\<rparr>"
    and "findOne (\<lambda>d. i_userId d = u) (indexCollection s)
         = List.find (\<lambda>_. True) (snd (snd (userView s u)))"
proof -
  show "getEntity s u i
        = map_option documentToEntity
            (List.find (\<lambda>d. e_entityId d = i) (fst (userView s u)))"
    by (simp add: getEntity_def userView_def findOne_def findMany_def find_filter
        split: option.split)
  show "getRelations s u i
        = map documentToRelation (filter (touches i) (fst (snd (userView s u))))"
    by (simp add: getRelations_def userView_def findMany_def)
  show "loadForUser s u
        = \<lparr>entities = map documentToEntity (fst (userView s u)),
           relations = map documentToRelation (fst (snd (userView s u)))\<rparr>"
    by (simp add: loadForUser_def userView_def)
  show "generateSummary s u now
        = \<lparr>totalEntities = length (fst (userView s u)),
           totalRelations = length (fst (snd (userView s u))),
           entityTypes = entityTypeCounts (groupEntityTypes (fst (userView s u))),
           recentEntities =
             map e_entityId
               (take 10 (sort_key (\<lambda>d. - updatedAt (e_metadata d)) (fst (userView s u)))),
           searchIndex =
             \<lparr>frequent_terms = [],
              entity_names =
                map e_entityId
                  (take 10 (sort_key (\<lambda>d. - updatedAt (e_metadata d))
                              (fst (userView s u))))\<rparr>,
           summary_updatedAt = now\<rparr>"
    by (simp add: generateSummary_def userView_def countDocuments_def recentDocs_def
        findMany_def)
  show "findOne (\<lambda>d. i_userId d = u) (indexCollection s)
        = List.find (\<lambda>_. True) (snd (snd (userView s u)))"
    by (simp add: userView_def findOne_def findMany_def
        find_filter_True [of "\<lambda>d. i_userId d = u"])
qed

lemma same_view_same_observations:
  assumes "userView s u = userView s' u"
  shows "getEntity s u i = getEntity s' u i"
    and "getRelations s u i = getRelations s' u i"
    and "loadForUser s u = loadForUser s' u"
    and "getUserSummary s u now = getUserSummary s' u now"
  using assms by (simp_all add: observations_of_view getUserSummary_def cong: option.case_cong)

lemma filter_replaceOne_other:
  "\<not> q d \<Longrightarrow> (\<And>x. p x \<Longrightarrow> \<not> q x) \<Longrightarrow> filter q (replaceOne p d xs) = filter q xs"
  by (induction xs) auto

lemma filter_deleteOne_other:
  "(\<And>x. p x \<Longrightarrow> \<not> q x) \<Longrightarrow> filter q (deleteOne p xs) = filter q xs"
  by (induction xs) auto

lemma filter_deleteMany_other:
  "(\<And>x. p x \<Longrightarrow> \<not> q x) \<Longrightarrow> filter q (deleteMany p xs) = filter q xs"
  unfolding deleteMany_def by (induction xs) auto

lemma other_user_entities:
  assumes "u1 \<noteq> u2"
  shows "filter (\<lambda>d. e_userId d = u2)
           (replaceOne (\<lambda>d. e_userId d = u1 \<and> e_entityId d = i) (entityDocument lc u1 now e) xs)
         = filter (\<lambda>d. e_userId d = u2) xs"
    and "filter (\<lambda>d. e_userId d = u2) (deleteOne (\<lambda>d. e_userId d = u1 \<and> e_entityId d = i) xs)
         = filter (\<lambda>d. e_userId d = u2) xs"
    and "filter (\<lambda>d. e_userId d = u2) (deleteMany (\<lambda>d. e_userId d = u1) xs)
         = filter (\<lambda>d. e_userId d = u2) xs"
  using assms
  by (auto intro!: filter_replaceOne_other filter_deleteOne_other filter_deleteMany_other
      simp: entityDocument_key)

lemma other_user_relations:
  assumes "u1 \<noteq> u2"
  shows "filter (\<lambda>d. rd_userId d = u2)
           (deleteMany (\<lambda>d. rd_userId d = u1 \<and> touches i d) xs)
         = filter (\<lambda>d. rd_userId d = u2) xs"
    and "filter (\<lambda>d. rd_userId d = u2)
           (deleteOne (\<lambda>d. rd_userId d = u1 \<and> rd_fromEntityId d = a \<and> rd_toEntityId d = b) xs)
         = filter (\<lambda>d. rd_userId d = u2) xs"
    and "filter (\<lambda>d. rd_userId d = u2) (deleteMany (\<lambda>d. rd_userId d = u1) xs)
         = filter (\<lambda>d. rd_userId d = u2) xs"
  using assms
  by (auto intro!: filter_deleteOne_other filter_deleteMany_other)

lemma other_user_index:
  assumes "u1 \<noteq> u2"
  shows "filter (\<lambda>d. i_userId d = u2)
           (replaceOne (\<lambda>d. i_userId d = u1) (summaryDocument u1 summary now) xs)
         = filter (\<lambda>d. i_userId d = u2) xs"
    and "filter (\<lambda>d. i_userId d = u2) (deleteMany (\<lambda>d. i_userId d = u1) xs)
         = filter (\<lambda>d. i_userId d = u2) xs"
  using assms
  by (auto intro!: filter_replaceOne_other filter_deleteMany_other simp: summaryDocument_def)

lemma other_user_bulkWrite:
  "u1 \<noteq> u2 \<Longrightarrow>
   filter (\<lambda>d. e_userId d = u2) (bulkWrite lc u1 now ents docs) = filter (\<lambda>d. e_userId d = u2) docs"
  unfolding bulkWrite_def
  by (induction ents arbitrary: docs) (simp_all add: other_user_entities)

lemma operations_isolated:
  assumes "u1 \<noteq> u2"
  shows "userView (saveEntity lc u1 e now s) u2 = userView s u2"
    and "userView (deleteEntity u1 i s) u2 = userView s u2"
    and "userView (deleteRelation u1 a b s) u2 = userView s u2"
    and "userView (saveEntitiesBatch lc u1 ents now s) u2 = userView s u2"
    and "userView (clearForUser u1 s) u2 = userView s u2"
    and "immediateQueue s = u1 # rest \<Longrightarrow> userView (runImmediate now s) u2 = userView s u2"
  using assms
  by (simp_all add: userView_def saveEntity_def deleteEntity_def deleteRelation_def
      saveEntitiesBatch_def clearForUser_def runImmediate_def updateSummaryIndex_def
      findMany_def other_user_entities other_user_relations other_user_index
      other_user_bulkWrite)

text \<open>
  Claim C2. An operation invoked by one user should leave everything another user can
  observe unchanged. \<open>saveRelation\<close> does not: its filter names the two endpoints only.
  In \<open>exStore\<close> user \<open>u\<close> owns the relation from \<open>A\<close> to \<open>B\<close>; after user \<open>v\<close> saves a
  relation with the same endpoints, the document belongs to \<open>v\<close>, and both
  \<open>getRelations(u, A)\<close> and the relations of \<open>loadForUser(u)\<close> are empty.
\<close>

theorem saveRelation_crosses_users:
  "map relationId (getRelations exStore ''u'' ''A'') = [''A-visited-B'']
   \<and> map relationId (relations (loadForUser exStore ''u'')) = [''A-visited-B'']
   \<and> getRelations (saveRelation ''v'' exLikes 4 exStore) ''u'' ''A'' = []
   \<and> relations (loadForUser (saveRelation ''v'' exLikes 4 exStore) ''u'') = []
   \<and> map relationId (getRelations (saveRelation ''v'' exLikes 4 exStore) ''v'' ''A'')
     = [''A-likes-B'']"
  by (simp add: loadForUser_def example_defs operation_defs)

end
